theory Spec2Isabelle
  imports Complex_Main "HOL-Library.AList" "HOL-Library.Sublist"
begin

section \<open>The investment game: data model\<close>

text \<open>
  The program is one Python module, \<^verbatim>\<open>investment-game.py\<close>. Its numbers are Python
  ints and floats; the embedding reads them as exact rationals (\<^typ>\<open>rat\<close>), so \<^verbatim>\<open>/\<close>
  is exact division and no rounding of floating point is modelled. Share counts are
  the results of \<^verbatim>\<open>int(...)\<close> and are integers.

  A Python \<^verbatim>\<open>dict\<close> keeps its keys in insertion order and the program depends on
  that order (\<^verbatim>\<open>sorted\<close> is stable, \<^verbatim>\<open>max\<close> keeps the first maximum), so a dict is an
  association list; a well-formed one has distinct keys. Assigning \<^verbatim>\<open>d[k] = v\<close> is
  \<^const>\<open>AList.update\<close>: an existing key keeps its position, a new key goes last.
\<close>

type_synonym symbol = string

datatype py_error =
    KeyError string
  | NameError string
  | ValueError
  | AttributeError
  | ZeroDivisionError

text \<open>
  The inner dict of an instrument, \<^verbatim>\<open>{'price': .., 'change': .., 'market_cap': ..,
  'volatility': ..}\<close>. Every key may be missing: the second table of the module
  carries \<^verbatim>\<open>'price'\<close> only.
\<close>

record stock_data =
  price :: "rat option"
  change :: "rat option"
  market_cap :: "rat option"
  volatility :: "rat option"

type_synonym market = "(symbol \<times> stock_data) list"

type_synonym holdings = "(symbol \<times> int) list"

text \<open>What the module prints, one constructor for each \<^verbatim>\<open>print\<close> of the modelled functions.
  A number in a message is the value handed to the format string.\<close>

datatype message =
    NoValidStocks
  | ZeroInitialValue
  | PortfolioReturn string rat
  | BestPerformer string rat
  | SelectedStocks "symbol list"
  | NoStocksForCriteria

text \<open>\<^verbatim>\<open>market_data[stock]\<close> and \<^verbatim>\<open>market_data[stock]['price']\<close>: a missing key raises.\<close>

definition getitem :: "market \<Rightarrow> symbol \<Rightarrow> py_error + stock_data" where
  "getitem md s = (case map_of md s of None \<Rightarrow> Inl (KeyError s) | Some d \<Rightarrow> Inr d)"

definition price_of :: "market \<Rightarrow> symbol \<Rightarrow> py_error + rat" where
  "price_of md s =
     (case getitem md s of
        Inl e \<Rightarrow> Inl e
      | Inr d \<Rightarrow> (case price d of None \<Rightarrow> Inl (KeyError ''price'') | Some p \<Rightarrow> Inr p))"

text \<open>\<^verbatim>\<open>stock in market_data\<close>.\<close>

definition contains :: "market \<Rightarrow> symbol \<Rightarrow> bool" where
  "contains md s = (map_of md s \<noteq> None)"

section \<open>Strategies\<close>

datatype strategy =
    AggressiveStrategy
  | ConservativeStrategy
  | RandomStrategy
  | CustomStrategy "symbol list"

text \<open>
  \<^verbatim>\<open>sorted(market_data.items(), key = lambda x: f(x[1]['change']))\<close> first computes the
  key of every item, in order; an item without \<^verbatim>\<open>'change'\<close> raises \<^verbatim>\<open>KeyError\<close>.
  \<open>keyed\<close> pairs every item with its key.
\<close>

fun keyed :: "(rat \<Rightarrow> rat) \<Rightarrow> market \<Rightarrow> py_error + (rat \<times> symbol \<times> stock_data) list" where
  "keyed f [] = Inr []"
| "keyed f ((s, d) # md) =
     (case change d of
        None \<Rightarrow> Inl (KeyError ''change'')
      | Some c \<Rightarrow>
          (case keyed f md of
             Inl e \<Rightarrow> Inl e
           | Inr ks \<Rightarrow> Inr ((f c, s, d) # ks)))"

text \<open>
  Python's \<^verbatim>\<open>sorted\<close> is a stable sort by key, as \<^const>\<open>sort_key\<close> is; the slice
  \<^verbatim>\<open>[:10]\<close> is \<^term>\<open>take 10\<close>.
\<close>

definition sorted_stocks :: "(rat \<Rightarrow> rat) \<Rightarrow> market \<Rightarrow> py_error + (rat \<times> symbol \<times> stock_data) list" where
  "sorted_stocks f md =
     (case keyed f md of Inl e \<Rightarrow> Inl e | Inr ks \<Rightarrow> Inr (sort_key fst ks))"

text \<open>
  \<^verbatim>\<open>RandomStrategy.select_stocks\<close> calls \<^verbatim>\<open>random.shuffle\<close>, and the module imports
  nothing but \<^verbatim>\<open>abc\<close>: the name \<^verbatim>\<open>random\<close> is unbound and the call raises
  \<^verbatim>\<open>NameError\<close> on every input.
\<close>

fun select_stocks :: "strategy \<Rightarrow> market \<Rightarrow> py_error + symbol list" where
  "select_stocks AggressiveStrategy md =
     (case sorted_stocks (\<lambda>c. c) md of
        Inl e \<Rightarrow> Inl e
      | Inr ss \<Rightarrow> Inr (map (\<lambda>(k, s, d). s) (take 10 ss)))"
| "select_stocks ConservativeStrategy md =
     (case sorted_stocks (\<lambda>c. \<bar>c\<bar>) md of
        Inl e \<Rightarrow> Inl e
      | Inr ss \<Rightarrow> Inr (map (\<lambda>(k, s, d). s) (take 10 ss)))"
| "select_stocks RandomStrategy md = Inl (NameError ''random'')"
| "select_stocks (CustomStrategy stocks) md = Inr (filter (contains md) stocks)"

section \<open>Investor\<close>

text \<open>
  The \<^verbatim>\<open>strategy\<close> attribute is whatever the caller passed; the module passes the
  result of \<^verbatim>\<open>player_options_menu\<close>, which is \<^verbatim>\<open>None\<close> when
  \<^verbatim>\<open>create_custom_strategy\<close> found no stock.
\<close>

record investor =
  name :: string
  strategy :: "strategy option"
  balance :: rat
  portfolio :: holdings






section \<open>Criteria-based construction\<close>

text \<open>
  The bounds come from \<^verbatim>\<open>float(...)\<close> of what the user typed, which accepts
  \<^verbatim>\<open>inf\<close>, \<^verbatim>\<open>-inf\<close> and \<^verbatim>\<open>nan\<close>; a missing attribute is read as
  \<^verbatim>\<open>float('inf')\<close>. \<open>fle\<close> is \<^verbatim>\<open><=\<close> on such values.
\<close>

datatype pyfloat = NegInf | Fin rat | PosInf | NaN

fun fle :: "pyfloat \<Rightarrow> pyfloat \<Rightarrow> bool" where
  "fle NaN _ = False"
| "fle _ NaN = False"
| "fle NegInf _ = True"
| "fle _ PosInf = True"
| "fle (Fin a) (Fin b) = (a \<le> b)"
| "fle _ _ = False"

text \<open>\<^verbatim>\<open>data.get(key, float('inf'))\<close>.\<close>

definition get_or_inf :: "rat option \<Rightarrow> pyfloat" where
  "get_or_inf v = (case v of None \<Rightarrow> PosInf | Some x \<Rightarrow> Fin x)"

definition meets_criteria :: "pyfloat \<Rightarrow> pyfloat \<Rightarrow> pyfloat \<Rightarrow> pyfloat \<Rightarrow> stock_data \<Rightarrow> bool" where
  "meets_criteria min_market_cap max_market_cap min_volatility max_volatility d =
     ((fle min_market_cap (get_or_inf (market_cap d)) \<and>
       fle (get_or_inf (market_cap d)) max_market_cap) \<and>
      (fle min_volatility (get_or_inf (volatility d)) \<and>
       fle (get_or_inf (volatility d)) max_volatility))"

text \<open>
  The second, live definition of \<^verbatim>\<open>create_custom_strategy\<close>; the two pairs of bounds
  that \<^verbatim>\<open>safe_float_input\<close> reads are parameters. It returns \<^verbatim>\<open>None\<close> when nothing
  was selected.
\<close>

definition create_custom_strategy ::
  "market \<Rightarrow> pyfloat \<Rightarrow> pyfloat \<Rightarrow> pyfloat \<Rightarrow> pyfloat \<Rightarrow> strategy option \<times> message list" where
  "create_custom_strategy md min_market_cap max_market_cap min_volatility max_volatility =
     (let selected_stocks =
            map fst (filter (\<lambda>(stock, d).
              meets_criteria min_market_cap max_market_cap min_volatility max_volatility d) md)
      in if selected_stocks = []
         then (None, [SelectedStocks selected_stocks, NoStocksForCriteria])
         else (Some (CustomStrategy (take 10 selected_stocks)), [SelectedStocks selected_stocks]))"

section \<open>Returns and comparison\<close>

text \<open>
  The two sums of \<^verbatim>\<open>calculate_portfolio_return\<close>. The first indexes the initial
  table for every held symbol; the second skips the symbols that the final table
  does not have.
\<close>

fun initial_value :: "holdings \<Rightarrow> market \<Rightarrow> py_error + rat" where
  "initial_value [] im = Inr 0"
| "initial_value ((stock, quantity) # pf) im =
     (case price_of im stock of
        Inl e \<Rightarrow> Inl e
      | Inr p \<Rightarrow>
          (case initial_value pf im of
             Inl e \<Rightarrow> Inl e
           | Inr v \<Rightarrow> Inr (p * of_int quantity + v)))"

fun final_value :: "holdings \<Rightarrow> market \<Rightarrow> py_error + rat" where
  "final_value [] fm = Inr 0"
| "final_value ((stock, quantity) # pf) fm =
     (if contains fm stock then
        (case price_of fm stock of
           Inl e \<Rightarrow> Inl e
         | Inr p \<Rightarrow>
             (case final_value pf fm of
                Inl e \<Rightarrow> Inl e
              | Inr v \<Rightarrow> Inr (p * of_int quantity + v)))
      else final_value pf fm)"

text \<open>
  The result is the returned number and what was printed. In the branch for an initial
  value of zero Python returns the int \<^verbatim>\<open>0\<close>, in the other branch a float; as numbers
  the two are equal when the return is flat, and the embedding has one type for both.
\<close>

definition calculate_portfolio_return ::
  "holdings \<Rightarrow> market \<Rightarrow> market \<Rightarrow> py_error + rat \<times> message list" where
  "calculate_portfolio_return pf im fm =
     (case initial_value pf im of
        Inl e \<Rightarrow> Inl e
      | Inr iv \<Rightarrow>
          (case final_value pf fm of
             Inl e \<Rightarrow> Inl e
           | Inr fv \<Rightarrow>
               if iv = 0 then Inr (0, [ZeroInitialValue])
               else Inr (((fv - iv) / iv) * 100, [])))"

text \<open>
  \<^verbatim>\<open>max(results, key=results.get)\<close> walks the keys in insertion order and replaces
  its candidate only by a strictly greater one; on an empty dict it raises
  \<^verbatim>\<open>ValueError\<close>. The key of an entry is the value stored under it.
\<close>

fun max_from :: "string \<times> rat \<Rightarrow> (string \<times> rat) list \<Rightarrow> string \<times> rat" where
  "max_from best [] = best"
| "max_from best (kv # kvs) = max_from (if snd kv > snd best then kv else best) kvs"

fun py_max :: "(string \<times> rat) list \<Rightarrow> py_error + string" where
  "py_max [] = Inl ValueError"
| "py_max (kv # kvs) = Inr (fst (max_from kv kvs))"

text \<open>The loop of \<^verbatim>\<open>compare_portfolios\<close>, on the dict \<open>results\<close> and the printed lines.\<close>

fun compare_loop ::
  "investor list \<Rightarrow> market \<Rightarrow> market \<Rightarrow> (string \<times> rat) list \<times> message list
     \<Rightarrow> py_error + (string \<times> rat) list \<times> message list" where
  "compare_loop [] im fm st = Inr st"
| "compare_loop (investor # investors) im fm st =
     (case calculate_portfolio_return (portfolio investor) im fm of
        Inl e \<Rightarrow> Inl e
      | Inr (return_pct, out) \<Rightarrow>
          compare_loop investors im fm
            (AList.update (name investor) return_pct (fst st),
             snd st @ out @ [PortfolioReturn (name investor) return_pct]))"

text \<open>
  \<^verbatim>\<open>compare_portfolios\<close> has no \<^verbatim>\<open>return\<close> statement: its caller receives \<^verbatim>\<open>None\<close>,
  and the dict and the best performer reach the outside only as printed lines. The
  embedding gives the two local variables at the end of the function, and the lines.
\<close>

record comparison =
  results :: "(string \<times> rat) list"
  best_performer :: string
  printed :: "message list"

definition compare_portfolios :: "investor list \<Rightarrow> market \<Rightarrow> market \<Rightarrow> py_error + comparison" where
  "compare_portfolios investors im fm =
     (case compare_loop investors im fm ([], []) of
        Inl e \<Rightarrow> Inl e
      | Inr (res, out) \<Rightarrow>
          (case py_max res of
             Inl e \<Rightarrow> Inl e
           | Inr best \<Rightarrow>
               Inr \<lparr>results = res, best_performer = best,
                    printed = out @ [BestPerformer best
                      (case map_of res best of Some r \<Rightarrow> r | None \<Rightarrow> 0)]\<rparr>))"

section \<open>Auxiliary definitions for the statements\<close>




text \<open>
  The criteria in words: an attribute that is present lies within the closed bounds;
  an attribute that is missing counts as infinity, which only an infinite upper bound
  admits.
\<close>

definition in_bounds :: "pyfloat \<Rightarrow> pyfloat \<Rightarrow> rat option \<Rightarrow> bool" where
  "in_bounds lo hi v =
     (case v of
        Some x \<Rightarrow> fle lo (Fin x) \<and> fle (Fin x) hi
      | None \<Rightarrow> lo \<noteq> NaN \<and> hi = PosInf)"

text \<open>The percentage that \<^verbatim>\<open>calculate_portfolio_return\<close> returns for an investor.\<close>

definition return_of :: "market \<Rightarrow> market \<Rightarrow> investor \<Rightarrow> rat" where
  "return_of im fm investor =
     (case calculate_portfolio_return (portfolio investor) im fm of
        Inr (r, out) \<Rightarrow> r
      | Inl e \<Rightarrow> 0)"

section \<open>Example data\<close>

definition two_stocks :: market where
  "two_stocks =
     [(''X'', \<lparr>price = Some 100, change = Some (-1), market_cap = Some 500, volatility = Some 20\<rparr>),
      (''Y'', \<lparr>price = Some 300, change = Some 2, market_cap = None, volatility = Some 30\<rparr>)]"

text \<open>A later snapshot, with prices only and without the symbol \<open>Y\<close>.\<close>

definition next_year :: market where
  "next_year = [(''X'', \<lparr>price = Some 120, change = None, market_cap = None, volatility = None\<rparr>)]"

text \<open>A snapshot of eleven instruments, with ties among the changes.\<close>

definition eleven_stocks :: market where
  "eleven_stocks =
     map (\<lambda>(s, c). (s, \<lparr>price = Some 10, change = Some c, market_cap = None, volatility = None\<rparr>))
       [(''A'', 3), (''B'', -2), (''C'', 1), (''D'', -2), (''E'', 5), (''F'', 0),
        (''G'', -4), (''H'', 2), (''I'', 1), (''J'', -1), (''K'', 4)]"

definition eleven_symbols :: "symbol list" where
  "eleven_symbols = [''A'', ''B'', ''C'', ''D'', ''E'', ''F'', ''G'', ''H'', ''I'', ''J'', ''K'']"


definition alice :: investor where
  "alice = \<lparr>name = ''Alice'', strategy = Some AggressiveStrategy, balance = 300,
            portfolio = [(''X'', 2), (''Y'', 0)]\<rparr>"

definition bob :: investor where
  "bob = \<lparr>name = ''Bob'', strategy = Some (CustomStrategy [''Y'']), balance = 200,
          portfolio = [(''Y'', 1)]\<rparr>"

definition alice_again :: investor where
  "alice_again = \<lparr>name = ''Alice'', strategy = Some (CustomStrategy [''X'']), balance = 0,
                  portfolio = [(''X'', 5)]\<rparr>"

section \<open>Lookups and selections\<close>


lemma contains_iff: "contains md s \<longleftrightarrow> s \<in> fst ` set md"
  by (simp add: contains_def map_of_eq_None_iff)


lemma keyed_total:
  "(\<forall>(s, d) \<in> set md. change d \<noteq> None) \<Longrightarrow> \<exists>ks. keyed f md = Inr ks"
  by (induction f md rule: keyed.induct) (auto split: option.splits sum.splits)

lemma keyed_error:
  "keyed f md = Inl e \<Longrightarrow> e = KeyError ''change'' \<and> (\<exists>(s, d) \<in> set md. change d = None)"
  by (induction f md rule: keyed.induct) (auto split: option.splits sum.splits)









section \<open>The allocation of \<open>invest\<close>\<close>










section \<open>The ranking strategies\<close>



lemma keyed_Inr_change:
  "keyed f md = Inr ks \<Longrightarrow> \<forall>(s, d) \<in> set md. change d \<noteq> None"
  by (induction f md arbitrary: ks rule: keyed.induct) (auto split: option.splits sum.splits)

lemma keyed_missing:
  assumes "\<not> (\<forall>(s, d) \<in> set md. change d \<noteq> None)"
  shows "keyed f md = Inl (KeyError ''change'')"
proof (cases "keyed f md")
  case (Inl e)
  with keyed_error[OF Inl] show ?thesis by simp
next
  case (Inr ks)
  with keyed_Inr_change[OF Inr] assms show ?thesis by blast
qed

lemma random_strategy_raises: "select_stocks RandomStrategy md = Inl (NameError ''random'')"
  by simp



text \<open>
  Claim C6, as stated, fails: the later snapshot is well formed, its instrument has a
  symbol and a price and no change, and the aggressive strategy raises on it.
\<close>

theorem aggressive_raises_without_change:
  "map_of next_year ''X'' = Some \<lparr>price = Some 120, change = None, market_cap = None, volatility = None\<rparr> \<and>
   select_stocks AggressiveStrategy next_year = Inl (KeyError ''change'')"
  by (simp add: next_year_def sorted_stocks_def)

text \<open>
  Claim C6, amended. On every snapshot the strategy with an explicit list returns.
  The aggressive and the conservative strategy return when every instrument of the
  snapshot carries a change, and raise \<^verbatim>\<open>KeyError('change')\<close> when one does not.
\<close>

theorem select_returns:
  "(\<exists>syms. select_stocks (CustomStrategy stocks) md = Inr syms) \<and>
   (if \<forall>(s, d) \<in> set md. change d \<noteq> None
    then \<exists>agg con. select_stocks AggressiveStrategy md = Inr agg \<and>
                   select_stocks ConservativeStrategy md = Inr con
    else select_stocks AggressiveStrategy md = Inl (KeyError ''change'') \<and>
         select_stocks ConservativeStrategy md = Inl (KeyError ''change''))"
proof (cases "\<forall>(s, d) \<in> set md. change d \<noteq> None")
  case True
  from keyed_total[OF True, of "\<lambda>c. c"] keyed_total[OF True, of "\<lambda>c. \<bar>c\<bar>"]
  have "\<exists>agg con. select_stocks AggressiveStrategy md = Inr agg \<and>
                   select_stocks ConservativeStrategy md = Inr con"
    by (auto simp: sorted_stocks_def)
  with True show ?thesis by simp
next
  case False
  from keyed_missing[OF False, of "\<lambda>c. c"] keyed_missing[OF False, of "\<lambda>c. \<bar>c\<bar>"]
  have "select_stocks AggressiveStrategy md = Inl (KeyError ''change'') \<and>
         select_stocks ConservativeStrategy md = Inl (KeyError ''change'')"
    by (simp add: sorted_stocks_def)
  with False show ?thesis by simp
qed

theorem select_returns_witness:
  "(\<exists>syms. select_stocks (CustomStrategy [''Y'', ''Z'']) two_stocks = Inr syms) \<and>
   (\<exists>agg con. select_stocks AggressiveStrategy two_stocks = Inr agg \<and>
              select_stocks ConservativeStrategy two_stocks = Inr con) \<and>
   \<not> (\<forall>(s, d) \<in> set next_year. change d \<noteq> None) \<and>
   select_stocks AggressiveStrategy next_year = Inl (KeyError ''change'') \<and>
   select_stocks ConservativeStrategy next_year = Inl (KeyError ''change'')"
proof -
  have h1: "\<forall>(s, d) \<in> set two_stocks. change d \<noteq> None" by (simp add: two_stocks_def)
  have h2: "\<not> (\<forall>(s, d) \<in> set next_year. change d \<noteq> None)" by (simp add: next_year_def)
  show ?thesis
    using select_returns[of "[''Y'', ''Z'']" two_stocks] select_returns[of "[]" next_year] h1 h2
    by (simp only: if_True if_False) simp
qed

text \<open>
  Claim C7, as stated, fails: given eleven symbols that are all in the snapshot, the
  strategy with an explicit list returns all eleven.
\<close>

theorem custom_returns_eleven:
  "select_stocks (CustomStrategy eleven_symbols) eleven_stocks = Inr eleven_symbols \<and>
   length eleven_symbols = 11"
  by (simp add: eleven_symbols_def eleven_stocks_def contains_def)

text \<open>
  Claim C7, amended. The strategy with an explicit list returns exactly the supplied
  symbols that are in the snapshot, in the caller's order; it has no cap of its own,
  and its result is never longer than the supplied list.
\<close>

theorem custom_selection:
  "select_stocks (CustomStrategy stocks) md = Inr (filter (\<lambda>s. s \<in> fst ` set md) stocks) \<and>
   subseq (filter (\<lambda>s. s \<in> fst ` set md) stocks) stocks \<and>
   length (filter (\<lambda>s. s \<in> fst ` set md) stocks) \<le> length stocks"
proof -
  have "contains md = (\<lambda>s. s \<in> fst ` set md)" by (rule ext) (rule contains_iff)
  then show ?thesis by simp
qed

theorem custom_selection_witness:
  "select_stocks (CustomStrategy [''Z'', ''Y'', ''X'', ''Y'']) two_stocks = Inr [''Y'', ''X'', ''Y'']"
proof -
  have "filter (\<lambda>s. s \<in> fst ` set two_stocks) [''Z'', ''Y'', ''X'', ''Y''] = [''Y'', ''X'', ''Y'']"
    by (simp add: two_stocks_def)
  with custom_selection[of "[''Z'', ''Y'', ''X'', ''Y'']" two_stocks] show ?thesis by simp
qed

section \<open>Selection by criteria\<close>

lemma meets_criteria_bounds:
  "meets_criteria a b c e d \<longleftrightarrow> in_bounds a b (market_cap d) \<and> in_bounds c e (volatility d)"
proof -
  have w: "fle lo (get_or_inf v) \<and> fle (get_or_inf v) hi \<longleftrightarrow> in_bounds lo hi v" for lo hi v
    by (cases v; cases lo; cases hi) (simp_all add: get_or_inf_def in_bounds_def)
  show ?thesis unfolding meets_criteria_def by (simp only: w)
qed

text \<open>
  Claim C9, as stated, fails: the symbol \<open>Y\<close> has no market cap and a volatility
  within the bounds, and with finite bounds on the market cap it is not selected.
\<close>

theorem criteria_excludes_missing:
  "map_of two_stocks ''Y'' =
     Some \<lparr>price = Some 300, change = Some 2, market_cap = None, volatility = Some 30\<rparr> \<and>
   create_custom_strategy two_stocks (Fin 0) (Fin 1000) (Fin 0) (Fin 100) =
     (Some (CustomStrategy [''X'']), [SelectedStocks [''X'']])"
  by (simp add: two_stocks_def create_custom_strategy_def meets_criteria_def get_or_inf_def Let_def)

text \<open>
  Claim C9, amended. The selection is the list of the snapshot's symbols, in the
  snapshot's order, whose market cap and volatility both lie within the closed
  bounds, where a missing attribute counts as infinity and so passes only an infinite
  upper bound. When the selection is empty the function returns \<^verbatim>\<open>None\<close> and prints
  that nothing was found; otherwise it returns the strategy with the first 10 selected
  symbols as its explicit list. It raises in neither case.
\<close>

theorem criteria_selection:
  "\<exists>sel. sel = map fst (filter (\<lambda>(s, d). in_bounds a b (market_cap d) \<and> in_bounds c e (volatility d)) md) \<and>
     create_custom_strategy md a b c e =
       (if sel = [] then (None, [SelectedStocks [], NoStocksForCriteria])
        else (Some (CustomStrategy (take 10 sel)), [SelectedStocks sel])) \<and>
     length (take 10 sel) \<le> 10 \<and> set sel \<subseteq> fst ` set md"
proof -
  let ?sel = "map fst (filter (\<lambda>(s, d). in_bounds a b (market_cap d) \<and> in_bounds c e (volatility d)) md)"
  have "create_custom_strategy md a b c e =
       (if ?sel = [] then (None, [SelectedStocks [], NoStocksForCriteria])
        else (Some (CustomStrategy (take 10 ?sel)), [SelectedStocks ?sel]))"
  proof -
    have F: "filter (\<lambda>(stock, d). meets_criteria a b c e d) md =
         filter (\<lambda>(s, d). in_bounds a b (market_cap d) \<and> in_bounds c e (volatility d)) md"
      by (rule filter_cong) (auto simp: meets_criteria_bounds)
    show ?thesis unfolding create_custom_strategy_def by (simp add: Let_def F)
  qed
  moreover have "set ?sel \<subseteq> fst ` set md" by auto
  ultimately show ?thesis by simp
qed

theorem criteria_selection_witness:
  "create_custom_strategy two_stocks (Fin 0) PosInf (Fin 25) (Fin 100) =
     (Some (CustomStrategy [''Y'']), [SelectedStocks [''Y'']]) \<and>
   create_custom_strategy two_stocks (Fin 0) (Fin 10) (Fin 0) (Fin 100) =
     (None, [SelectedStocks [], NoStocksForCriteria])"
proof -
  have a: "map fst (filter (\<lambda>(s, d). in_bounds (Fin 0) PosInf (market_cap d) \<and>
              in_bounds (Fin 25) (Fin 100) (volatility d)) two_stocks) = [''Y'']"
    by (simp add: two_stocks_def in_bounds_def)
  have b: "map fst (filter (\<lambda>(s, d). in_bounds (Fin 0) (Fin 10) (market_cap d) \<and>
              in_bounds (Fin 0) (Fin 100) (volatility d)) two_stocks) = []"
    by (simp add: two_stocks_def in_bounds_def)
  show ?thesis
    using criteria_selection[of "Fin 0" PosInf "Fin 25" "Fin 100" two_stocks]
      criteria_selection[of "Fin 0" "Fin 10" "Fin 0" "Fin 100" two_stocks]
    by (simp add: a b)
qed

section \<open>Portfolio value and return\<close>

lemma final_value_skips_absent:
  "\<not> contains fm s \<Longrightarrow> final_value ((s, q) # pf) fm = final_value pf fm"
  by simp

lemma initial_value_raises_absent:
  "map_of im s = None \<Longrightarrow> initial_value ((s, q) # pf) im = Inl (KeyError s)"
  by (simp add: price_of_def getitem_def)

lemma final_value_total:
  "\<forall>(s, d) \<in> set fm. price d \<noteq> None \<Longrightarrow> \<exists>fv. final_value pf fm = Inr fv"
proof (induction pf fm rule: final_value.induct)
  case (1 fm)
  show ?case by simp
next
  case (2 stock quantity pf fm)
  show ?case
  proof (cases "contains fm stock")
    case True
    then obtain d where d: "map_of fm stock = Some d" by (auto simp: contains_def)
    then have "(stock, d) \<in> set fm" by (rule map_of_SomeD)
    with "2.prems" obtain p where "price d = Some p" by auto
    with d have p: "price_of fm stock = Inr p" by (simp add: price_of_def getitem_def)
    from "2.IH"(1)[OF True p "2.prems"] obtain fv where "final_value pf fm = Inr fv" by blast
    with True p show ?thesis by simp
  next
    case False
    from "2.IH"(2)[OF False "2.prems"] False show ?thesis by simp
  qed
qed

text \<open>
  Claim C4. The claim holds for the final snapshot and not for the initial one: a
  held symbol that the final snapshot lacks adds nothing to the final value, while a
  held symbol that the initial snapshot lacks raises \<^verbatim>\<open>KeyError\<close>. Here one share
  of \<open>Y\<close> is valued first with \<open>Y\<close> missing from the initial snapshot, then with
  \<open>Y\<close> missing from the final one.
\<close>

theorem initial_value_missing_symbol:
  "calculate_portfolio_return [(''Y'', 1)] next_year two_stocks = Inl (KeyError ''Y'') \<and>
   calculate_portfolio_return [(''Y'', 1)] two_stocks next_year = Inr (- 100, [])"
  by (simp add: calculate_portfolio_return_def price_of_def getitem_def contains_def
        two_stocks_def next_year_def)

text \<open>
  Claim C5, as stated, fails: a portfolio whose initial value is zero and a portfolio
  whose value did not change both return the number 0; they differ only in the
  printed line.
\<close>

theorem zero_baseline_same_value:
  "initial_value [(''Y'', 0)] two_stocks = Inr 0 \<and>
   initial_value [(''X'', 1)] two_stocks = Inr 100 \<and>
   calculate_portfolio_return [(''Y'', 0)] two_stocks two_stocks = Inr (0, [ZeroInitialValue]) \<and>
   calculate_portfolio_return [(''X'', 1)] two_stocks two_stocks = Inr (0, [])"
  by (simp add: calculate_portfolio_return_def price_of_def getitem_def contains_def
        two_stocks_def)

text \<open>
  Claim C5, amended. When the initial value is computed and every instrument of the
  final snapshot has a price, the function returns. For an initial value of zero it
  returns exactly 0 and prints that the initial value is zero; otherwise it returns
  the percentage and prints nothing. The line printed is the only signal.
\<close>

theorem zero_baseline_return:
  assumes "initial_value pf im = Inr iv" and "\<forall>(s, d) \<in> set fm. price d \<noteq> None"
  shows "\<exists>fv. final_value pf fm = Inr fv \<and>
    calculate_portfolio_return pf im fm =
      (if iv = 0 then Inr (0, [ZeroInitialValue]) else Inr (((fv - iv) / iv) * 100, []))"
proof -
  from final_value_total[OF assms(2)] obtain fv where fv: "final_value pf fm = Inr fv" by blast
  with assms(1) show ?thesis by (simp add: calculate_portfolio_return_def)
qed

theorem zero_baseline_return_witness:
  "initial_value [(''Y'', 0)] two_stocks = Inr 0 \<and>
   (\<exists>fv. final_value [(''Y'', 0)] next_year = Inr fv \<and>
    calculate_portfolio_return [(''Y'', 0)] two_stocks next_year = Inr (0, [ZeroInitialValue]))"
proof -
  have h1: "initial_value [(''Y'', 0)] two_stocks = Inr 0"
    by (simp add: price_of_def getitem_def two_stocks_def)
  have h2: "\<forall>(s, d) \<in> set next_year. price d \<noteq> None" by (simp add: next_year_def)
  show ?thesis using zero_baseline_return[OF h1 h2] h1 by simp
qed

section \<open>Comparison of investors\<close>

lemma max_from_first:
  "\<exists>pre post. best # kvs = pre @ max_from best kvs # post \<and>
     (\<forall>x \<in> set pre. snd x < snd (max_from best kvs)) \<and>
     (\<forall>x \<in> set post. snd x \<le> snd (max_from best kvs))"
proof (induction kvs arbitrary: best)
  case Nil
  have "[best] = [] @ best # [] \<and>
     (\<forall>x \<in> set ([] :: (string \<times> rat) list). snd x < snd best) \<and>
     (\<forall>x \<in> set ([] :: (string \<times> rat) list). snd x \<le> snd best)" by simp
  then have "\<exists>pre post. [best] = pre @ best # post \<and>
     (\<forall>x \<in> set pre. snd x < snd best) \<and> (\<forall>x \<in> set post. snd x \<le> snd best)"
    by (intro exI)
  then show ?case by simp
next
  case (Cons kv kvs)
  show ?case
  proof (cases "snd kv > snd best")
    case True
    from Cons.IH[of kv] obtain pre post where
      s: "kv # kvs = pre @ max_from kv kvs # post"
      and lt: "\<forall>x \<in> set pre. snd x < snd (max_from kv kvs)"
      and le: "\<forall>x \<in> set post. snd x \<le> snd (max_from kv kvs)" by blast
    have "kv \<in> set (pre @ max_from kv kvs # post)" using s by (metis list.set_intros(1))
    then have "snd kv \<le> snd (max_from kv kvs)" using lt le by auto
    with True have b: "snd best < snd (max_from kv kvs)" by simp
    have "best # kv # kvs = (best # pre) @ max_from kv kvs # post" using s by simp
    moreover have "\<forall>x \<in> set (best # pre). snd x < snd (max_from kv kvs)" using b lt by simp
    ultimately have "\<exists>pre post. best # kv # kvs = pre @ max_from kv kvs # post \<and>
       (\<forall>x \<in> set pre. snd x < snd (max_from kv kvs)) \<and>
       (\<forall>x \<in> set post. snd x \<le> snd (max_from kv kvs))" using le by blast
    with True show ?thesis by simp
  next
    case False
    from Cons.IH[of best] obtain pre post where
      s: "best # kvs = pre @ max_from best kvs # post"
      and lt: "\<forall>x \<in> set pre. snd x < snd (max_from best kvs)"
      and le: "\<forall>x \<in> set post. snd x \<le> snd (max_from best kvs)" by blast
    have "\<exists>pre post. best # kv # kvs = pre @ max_from best kvs # post \<and>
       (\<forall>x \<in> set pre. snd x < snd (max_from best kvs)) \<and>
       (\<forall>x \<in> set post. snd x \<le> snd (max_from best kvs))"
    proof (cases pre)
      case Nil
      have "best # kvs = max_from best kvs # post"
        using s unfolding Nil by (simp only: append_Nil)
      then have m: "max_from best kvs = best" "post = kvs" by (metis list.inject)+
      have "best # kv # kvs = [] @ max_from best kvs # (kv # kvs)" using m by simp
      moreover have "\<forall>x \<in> set (kv # kvs). snd x \<le> snd (max_from best kvs)"
        using False le m by auto
      ultimately show ?thesis by (metis empty_iff list.set(1))
    next
      case (Cons b pre')
      have "best # kvs = b # (pre' @ max_from best kvs # post)"
        using s unfolding Cons by (simp only: append_Cons)
      then have b: "b = best" and k: "kvs = pre' @ max_from best kvs # post"
        by (metis list.inject)+
      have "snd best < snd (max_from best kvs)" using lt Cons b by simp
      with False have "snd kv < snd (max_from best kvs)" by simp
      then have "\<forall>x \<in> set (best # kv # pre'). snd x < snd (max_from best kvs)"
        using lt Cons b by simp
      moreover have "best # kv # kvs = (best # kv # pre') @ max_from best kvs # post"
        using k by simp
      ultimately show ?thesis using le by blast
    qed
    with False show ?thesis by simp
  qed
qed

lemma py_max_first:
  assumes "res \<noteq> []"
  shows "\<exists>best r pre post. py_max res = Inr best \<and> res = pre @ (best, r) # post \<and>
     (\<forall>(k, v) \<in> set pre. v < r) \<and> (\<forall>(k, v) \<in> set post. v \<le> r)"
proof -
  from assms obtain kv kvs where res: "res = kv # kvs" by (cases res) auto
  from max_from_first[of kv kvs] obtain pre post where
    s: "kv # kvs = pre @ max_from kv kvs # post"
    and lt: "\<forall>x \<in> set pre. snd x < snd (max_from kv kvs)"
    and le: "\<forall>x \<in> set post. snd x \<le> snd (max_from kv kvs)" by blast
  obtain best r where m: "max_from kv kvs = (best, r)" by (cases "max_from kv kvs")
  have "py_max res = Inr best" using res m by simp
  moreover have "res = pre @ (best, r) # post" using res s m by simp
  moreover have "\<forall>(k, v) \<in> set pre. v < r" using lt m by auto
  moreover have "\<forall>(k, v) \<in> set post. v \<le> r" using le m by auto
  ultimately show ?thesis by blast
qed

lemma compare_loop_ok:
  assumes "\<forall>investor \<in> set investors. \<exists>r out. calculate_portfolio_return (portfolio investor) im fm = Inr (r, out)"
  shows "\<exists>out'. compare_loop investors im fm (res, out) =
     Inr (fold (\<lambda>investor. AList.update (name investor) (return_of im fm investor)) investors res, out')"
  using assms
proof (induction investors arbitrary: res out)
  case Nil
  show ?case by simp
next
  case (Cons a investors)
  from Cons.prems obtain r o1 where r: "calculate_portfolio_return (portfolio a) im fm = Inr (r, o1)"
    by auto
  then have ra: "return_of im fm a = r" by (simp add: return_of_def)
  from Cons.prems have "\<forall>investor \<in> set investors. \<exists>r out. calculate_portfolio_return (portfolio investor) im fm = Inr (r, out)"
    by simp
  from Cons.IH[OF this, of "AList.update (name a) r res" "out @ o1 @ [PortfolioReturn (name a) r]"]
  show ?case using r ra by simp
qed

lemma update_fresh: "k \<notin> fst ` set al \<Longrightarrow> AList.update k v al = al @ [(k, v)]"
  by (induction al) auto

lemma fold_update_distinct:
  "distinct (map f xs) \<Longrightarrow> f ` set xs \<inter> fst ` set res = {} \<Longrightarrow>
   fold (\<lambda>x. AList.update (f x) (g x)) xs res = res @ map (\<lambda>x. (f x, g x)) xs"
proof (induction xs arbitrary: res)
  case Nil
  show ?case by simp
next
  case (Cons x xs)
  from Cons.prems have fresh: "f x \<notin> fst ` set res" by auto
  have "f ` set xs \<inter> fst ` set (res @ [(f x, g x)]) = {}" using Cons.prems by auto
  with Cons.IH[of "res @ [(f x, g x)]"] Cons.prems(1) update_fresh[OF fresh, of "g x"]
  show ?case by simp
qed

lemma fold_update_keep:
  "k \<notin> f ` set xs \<Longrightarrow> map_of (fold (\<lambda>x. AList.update (f x) (g x)) xs res) k = map_of res k"
  by (induction xs arbitrary: res) (auto simp: update_conv')

lemma fold_update_last:
  "f b \<notin> f ` set zs \<Longrightarrow>
   map_of (fold (\<lambda>x. AList.update (f x) (g x)) (xs @ b # zs) res) (f b) = Some (g b)"
  by (simp add: fold_update_keep update_conv')

lemma fold_update_keys_distinct:
  "distinct (map fst res) \<Longrightarrow> distinct (map fst (fold (\<lambda>x. AList.update (f x) (g x)) xs res))"
  by (induction xs arbitrary: res) (auto simp: distinct_update)

lemma fold_update_nonempty:
  "xs \<noteq> [] \<Longrightarrow> fold (\<lambda>x. AList.update (f x) (g x)) xs res \<noteq> []"
proof (induction xs arbitrary: res)
  case Nil
  then show ?case by simp
next
  case (Cons x xs)
  have u: "AList.update (f x) (g x) res \<noteq> []" by (cases res) auto
  show ?case
  proof (cases xs)
    case Nil
    with u show ?thesis by simp
  next
    case (Cons y ys)
    then have "xs \<noteq> []" by simp
    from Cons.IH[OF this] show ?thesis by simp
  qed
qed

lemma compare_run:
  assumes ok: "\<forall>investor \<in> set investors. \<exists>r out.
      calculate_portfolio_return (portfolio investor) im fm = Inr (r, out)"
    and ne: "investors \<noteq> []"
  shows "\<exists>c pre r post.
    compare_portfolios investors im fm = Inr c \<and>
    results c = fold (\<lambda>investor. AList.update (name investor) (return_of im fm investor)) investors [] \<and>
    distinct (map fst (results c)) \<and>
    results c = pre @ (best_performer c, r) # post \<and>
    (\<forall>(k, v) \<in> set pre. v < r) \<and> (\<forall>(k, v) \<in> set post. v \<le> r) \<and>
    last (printed c) = BestPerformer (best_performer c) r"
proof -
  let ?res = "fold (\<lambda>investor. AList.update (name investor) (return_of im fm investor)) investors []"
  from compare_loop_ok[OF ok, of "[]" "[]"] obtain out where
    loop: "compare_loop investors im fm ([], []) = Inr (?res, out)" by blast
  have dist: "distinct (map fst ?res)" by (rule fold_update_keys_distinct) simp
  have "?res \<noteq> []" by (rule fold_update_nonempty[OF ne])
  from py_max_first[OF this] obtain best r pre post where
    best: "py_max ?res = Inr best" and split: "?res = pre @ (best, r) # post"
    and lt: "\<forall>(k, v) \<in> set pre. v < r" and le: "\<forall>(k, v) \<in> set post. v \<le> r" by blast
  have "(best, r) \<in> set ?res" by (subst split) simp
  with dist have look: "map_of ?res best = Some r" by (simp only: map_of_eq_Some_iff)
  let ?c = "\<lparr>results = ?res, best_performer = best, printed = out @ [BestPerformer best r]\<rparr>"
  have run: "compare_portfolios investors im fm = Inr ?c"
    unfolding compare_portfolios_def using loop best look by simp
  have "compare_portfolios investors im fm = Inr ?c \<and>
    results ?c = ?res \<and>
    distinct (map fst (results ?c)) \<and>
    results ?c = pre @ (best_performer ?c, r) # post \<and>
    (\<forall>(k, v) \<in> set pre. v < r) \<and> (\<forall>(k, v) \<in> set post. v \<le> r) \<and>
    last (printed ?c) = BestPerformer (best_performer ?c) r"
  proof (intro conjI)
    show "compare_portfolios investors im fm = Inr ?c" by (rule run)
    show "results ?c = ?res" by simp
    show "distinct (map fst (results ?c))" using dist by simp
    show "results ?c = pre @ (best_performer ?c, r) # post" using split by simp
    show "\<forall>(k, v) \<in> set pre. v < r" by (rule lt)
    show "\<forall>(k, v) \<in> set post. v \<le> r" by (rule le)
    show "last (printed ?c) = BestPerformer (best_performer ?c) r" by simp
  qed
  then show ?thesis by (intro exI)
qed

lemma example_returns:
  "calculate_portfolio_return (portfolio alice) two_stocks next_year = Inr (20, [])"
  "calculate_portfolio_return (portfolio bob) two_stocks next_year = Inr (- 100, [])"
  "calculate_portfolio_return (portfolio alice_again) two_stocks next_year = Inr (20, [])"
  by (simp_all add: alice_def bob_def alice_again_def calculate_portfolio_return_def
        price_of_def getitem_def contains_def two_stocks_def next_year_def)

text \<open>
  Claim C3, as stated, fails: the empty sequence of investors has unique names, and
  on it the comparison raises \<^verbatim>\<open>ValueError\<close>.
\<close>

theorem compare_empty_raises:
  "distinct (map name ([] :: investor list)) \<and>
   compare_portfolios [] two_stocks next_year = Inl ValueError"
  by (simp add: compare_portfolios_def)

text \<open>
  Claim C3, amended. For a non-empty sequence of investors with unique names, each of
  whose returns can be computed, the comparison computes a dict whose keys are the
  investors' names in their order and whose values are their percent returns, and a
  best performer. The best performer's entry has the maximum return, and every entry
  before it has a strictly smaller one: among equal returns the first encountered
  wins. The last line printed names the best performer and that return. The function
  prints these results and returns \<^verbatim>\<open>None\<close>; it assigns to no attribute of an
  investor and to no entry of a snapshot.
\<close>

theorem compare_unique_names:
  assumes ne: "investors \<noteq> []"
    and uniq: "distinct (map name investors)"
    and ok: "\<forall>investor \<in> set investors. \<exists>r out.
      calculate_portfolio_return (portfolio investor) im fm = Inr (r, out)"
  shows "\<exists>c pre r post.
    compare_portfolios investors im fm = Inr c \<and>
    map fst (results c) = map name investors \<and>
    (\<forall>investor \<in> set investors. \<exists>ret out.
       calculate_portfolio_return (portfolio investor) im fm = Inr (ret, out) \<and>
       map_of (results c) (name investor) = Some ret) \<and>
    results c = pre @ (best_performer c, r) # post \<and>
    (\<forall>(k, v) \<in> set pre. v < r) \<and> (\<forall>(k, v) \<in> set post. v \<le> r) \<and>
    last (printed c) = BestPerformer (best_performer c) r"
proof -
  let ?res = "fold (\<lambda>investor. AList.update (name investor) (return_of im fm investor)) investors []"
  from compare_run[OF ok ne] obtain c pre r post where
    run: "compare_portfolios investors im fm = Inr c" and res: "results c = ?res"
    and dist: "distinct (map fst (results c))"
    and split: "results c = pre @ (best_performer c, r) # post"
    and lt: "\<forall>(k, v) \<in> set pre. v < r" and le: "\<forall>(k, v) \<in> set post. v \<le> r"
    and pr: "last (printed c) = BestPerformer (best_performer c) r" by blast
  have eq: "results c = map (\<lambda>investor. (name investor, return_of im fm investor)) investors"
    using fold_update_distinct[OF uniq, of "[]" "return_of im fm"] res by simp
  have keys: "map fst (results c) = map name investors" by (simp add: eq comp_def)
  have each: "\<exists>ret out. calculate_portfolio_return (portfolio investor) im fm = Inr (ret, out) \<and>
       map_of (results c) (name investor) = Some ret" if m: "investor \<in> set investors" for investor
  proof -
    from ok m obtain ret out where
      ret: "calculate_portfolio_return (portfolio investor) im fm = Inr (ret, out)" by blast
    then have "return_of im fm investor = ret" by (simp add: return_of_def)
    with m have "(name investor, ret) \<in> set (results c)" by (force simp: eq)
    with dist have "map_of (results c) (name investor) = Some ret"
      by (simp only: map_of_eq_Some_iff)
    with ret show ?thesis by blast
  qed
  show ?thesis using run keys each split lt le pr by blast
qed

theorem compare_unique_names_witness:
  "[alice, bob] \<noteq> [] \<and> distinct (map name [alice, bob]) \<and>
   (\<exists>c pre r post.
    compare_portfolios [alice, bob] two_stocks next_year = Inr c \<and>
    map fst (results c) = map name [alice, bob] \<and>
    (\<forall>investor \<in> set [alice, bob]. \<exists>ret out.
       calculate_portfolio_return (portfolio investor) two_stocks next_year = Inr (ret, out) \<and>
       map_of (results c) (name investor) = Some ret) \<and>
    results c = pre @ (best_performer c, r) # post \<and>
    (\<forall>(k, v) \<in> set pre. v < r) \<and> (\<forall>(k, v) \<in> set post. v \<le> r) \<and>
    last (printed c) = BestPerformer (best_performer c) r)"
proof -
  have h1: "[alice, bob] \<noteq> []" by simp
  have h2: "distinct (map name [alice, bob])" by (simp add: alice_def bob_def)
  have h3: "\<forall>investor \<in> set [alice, bob]. \<exists>r out.
      calculate_portfolio_return (portfolio investor) two_stocks next_year = Inr (r, out)"
    by (simp add: example_returns)
  show ?thesis by (intro conjI h1 h2 h3 compare_unique_names[OF h1 h2 h3])
qed

text \<open>
  Claim C10. Let two investors of the sequence have the same name, the second being
  the last investor of that name, and let every return be computable. Then the
  comparison raises nothing; under the shared name the dict holds the return of the
  later investor; the dict has one entry for every name; and the best performer is
  chosen among the entries of that dict, as the first entry of maximum return.
\<close>

theorem compare_duplicate_names:
  assumes ok: "\<forall>investor \<in> set investors. \<exists>r out.
      calculate_portfolio_return (portfolio investor) im fm = Inr (r, out)"
    and dup: "investors = xs @ a # ys @ b # zs"
    and same: "name a = name b"
    and final: "name b \<notin> name ` set zs"
  shows "\<exists>c ret out pre r post.
    compare_portfolios investors im fm = Inr c \<and>
    calculate_portfolio_return (portfolio b) im fm = Inr (ret, out) \<and>
    map_of (results c) (name a) = Some ret \<and>
    distinct (map fst (results c)) \<and>
    results c = pre @ (best_performer c, r) # post \<and>
    (\<forall>(k, v) \<in> set pre. v < r) \<and> (\<forall>(k, v) \<in> set post. v \<le> r) \<and>
    last (printed c) = BestPerformer (best_performer c) r"
proof -
  let ?res = "fold (\<lambda>investor. AList.update (name investor) (return_of im fm investor)) investors []"
  have ne: "investors \<noteq> []" using dup by simp
  from compare_run[OF ok ne] obtain c pre r post where
    run: "compare_portfolios investors im fm = Inr c" and res: "results c = ?res"
    and dist: "distinct (map fst (results c))"
    and split: "results c = pre @ (best_performer c, r) # post"
    and lt: "\<forall>(k, v) \<in> set pre. v < r" and le: "\<forall>(k, v) \<in> set post. v \<le> r"
    and pr: "last (printed c) = BestPerformer (best_performer c) r" by blast
  have "b \<in> set investors" using dup by simp
  with ok obtain ret out where
    ret: "calculate_portfolio_return (portfolio b) im fm = Inr (ret, out)" by blast
  then have rb: "return_of im fm b = ret" by (simp add: return_of_def)
  have "investors = (xs @ a # ys) @ b # zs" using dup by simp
  then have "map_of ?res (name b) = Some (return_of im fm b)"
    using fold_update_last[OF final, of "return_of im fm" "xs @ a # ys" "[]"] by simp
  with res rb same have look: "map_of (results c) (name a) = Some ret" by simp
  show ?thesis using run ret look dist split lt le pr by blast
qed

theorem compare_duplicate_names_witness:
  "[alice, bob, alice_again] = [] @ alice # [bob] @ alice_again # [] \<and>
   name alice = name alice_again \<and>
   name alice_again \<notin> name ` set [] \<and>
   (\<exists>c ret out pre r post.
    compare_portfolios [alice, bob, alice_again] two_stocks next_year = Inr c \<and>
    calculate_portfolio_return (portfolio alice_again) two_stocks next_year = Inr (ret, out) \<and>
    map_of (results c) (name alice) = Some ret \<and>
    distinct (map fst (results c)) \<and>
    results c = pre @ (best_performer c, r) # post \<and>
    (\<forall>(k, v) \<in> set pre. v < r) \<and> (\<forall>(k, v) \<in> set post. v \<le> r) \<and>
    last (printed c) = BestPerformer (best_performer c) r)"
proof -
  have h1: "\<forall>investor \<in> set [alice, bob, alice_again]. \<exists>r out.
      calculate_portfolio_return (portfolio investor) two_stocks next_year = Inr (r, out)"
    by (simp add: example_returns)
  have h2: "[alice, bob, alice_again] = [] @ alice # [bob] @ alice_again # []" by simp
  have h3: "name alice = name alice_again" by (simp add: alice_def alice_again_def)
  have h4: "name alice_again \<notin> name ` set []" by simp
  show ?thesis by (intro conjI h1 h2 h3 h4 compare_duplicate_names[OF h1 h2 h3 h4])
qed

end
